theory Spec2Isabelle
  imports
    Main
    "HOL-Library.Sublist"
    "HOL-Library.Char_ord"
    "HOL-Library.List_Lexorder"
    "HOL-Library.Stream"
begin

section \<open>Equipment alias generator (scripts/generateEquipmentAliases.py)\<close>

text \<open>
  The script fetches the equipment catalogue of a semantic wiki page by page, builds one
  item dictionary per fetched record, sorts the items by name, and appends one line of
  text per recognised variant to the global string \<open>data\<close>. Strings are \<open>char list\<close>,
  Python's \<open>None\<close> is \<open>None\<close> of an option type, dictionaries that are iterated are
  association lists in insertion order, and the global \<open>data\<close> is passed explicitly.
\<close>

subsection \<open>Rendering of identifiers (\<open>'%s' % x\<close>)\<close>

definition digit_char :: "nat \<Rightarrow> char" where
  "digit_char d = ''0123456789'' ! d"

fun str_of_nat :: "nat \<Rightarrow> string" where
  "str_of_nat n =
     (if n < 10 then [digit_char n] else str_of_nat (n div 10) @ [digit_char (n mod 10)])"

declare str_of_nat.simps [simp del]

definition str_of_int :: "int \<Rightarrow> string" where
  "str_of_int i = (if i < 0 then CHR ''-'' # str_of_nat (nat (- i)) else str_of_nat (nat i))"

text \<open>\<open>str(x)\<close> for a value that is an integer or \<open>None\<close>.\<close>

definition py_str :: "int option \<Rightarrow> string" where
  "py_str x = (case x of None \<Rightarrow> ''None'' | Some i \<Rightarrow> str_of_int i)"

subsection \<open>Fetched records and item dictionaries\<close>

text \<open>
  \<open>po = v['printouts']\<close>: each printout is an array. The item identifier is a number,
  the version anchor is text. The third requested printout, the equipment slot, is
  never read.
\<close>

record printouts =
  Item_ID :: "int list"
  Version_anchor :: "string list"

text \<open>A record \<open>v\<close> of the result set: \<open>'printouts' in v\<close> or not.\<close>

type_synonym wiki_record = "printouts option"

text \<open>The dictionary appended to \<open>all_items\<close>.\<close>

record item =
  name :: string
  item_id :: "int option"
  version :: string

definition getPrintoutValue :: "'a list \<Rightarrow> 'a option" where
  "getPrintoutValue prop = (case prop of [] \<Rightarrow> None | x # _ \<Rightarrow> Some x)"

text \<open>\<open>k.rsplit('#', 1)[0]\<close>: the part before the last \<open>#\<close>, the whole key without one.\<close>

definition rsplit_head :: "char \<Rightarrow> string \<Rightarrow> string" where
  "rsplit_head sep k =
     (if sep \<in> set k then rev (tl (dropWhile (\<lambda>c. c \<noteq> sep) (rev k))) else k)"

text \<open>\<open>x or ''\<close> for a string or \<open>None\<close>.\<close>

definition or_empty :: "string option \<Rightarrow> string" where
  "or_empty x = (case x of None \<Rightarrow> [] | Some s \<Rightarrow> s)"

definition make_item :: "string \<Rightarrow> printouts \<Rightarrow> item" where
  "make_item k po =
     \<lparr> name = rsplit_head CHR ''#'' k,
       item_id = getPrintoutValue (Item_ID po),
       version = or_empty (getPrintoutValue (Version_anchor po)) \<rparr>"

text \<open>The loop over \<open>wiki_data.items()\<close>: a record without printouts is skipped.\<close>

fun build_items :: "(string \<times> wiki_record) list \<Rightarrow> item list" where
  "build_items [] = []"
| "build_items ((k, v) # rest) =
     (case v of
        None \<Rightarrow> build_items rest
      | Some po \<Rightarrow> make_item k po # build_items rest)"

subsection \<open>The regular expressions\<close>

text \<open>
  Python's \<open>$\<close> (without \<open>re.MULTILINE\<close>) matches at the end of the string and
  also just before a newline that is the last character of the string.
\<close>

definition at_end :: "string \<Rightarrow> bool" where
  "at_end s = (s = [] \<or> s = ''\<newline>'')"

text \<open>\<open>re.match(r"^(a1|...|an)$", s)\<close>: alternatives of literals, then the end.\<close>

definition match_alts :: "string list \<Rightarrow> string \<Rightarrow> bool" where
  "match_alts alts s = list_ex (\<lambda>a. prefix a s \<and> at_end (drop (length a) s)) alts"

definition slayer_prefixes :: "string list" where
  "slayer_prefixes =
     [''Black'', ''Green'', ''Red'', ''Purple'', ''Turquoise'',
      ''Hydra'', ''Twisted'', ''Tztok'', ''Vampyric'', ''Tzkal'']"

text \<open>
  The part of the pattern after the prefix alternative: \<open> slayer helmet( \(i\))?$\<close>.
  The result is \<open>group(1)\<close> of a match: the optional group is tried first.
\<close>

definition slayer_tail :: "string \<Rightarrow> string option option" where
  "slayer_tail t =
     (if prefix '' slayer helmet'' t then
        (let u = drop (length '' slayer helmet'') t in
         if prefix '' (i)'' u \<and> at_end (drop (length '' (i)'') u) then Some (Some '' (i)'')
         else if at_end u then Some None
         else None)
      else None)"

fun slayer_alts :: "string list \<Rightarrow> string \<Rightarrow> string option option" where
  "slayer_alts [] s = None"
| "slayer_alts (a # as) s =
     (if prefix a s then
        (case slayer_tail (drop (length a) s) of
           Some g \<Rightarrow> Some g
         | None \<Rightarrow> slayer_alts as s)
      else slayer_alts as s)"

text \<open>\<open>slayer_helm_match\<close>: \<open>None\<close> for no match, \<open>Some g\<close> for a match whose group 1 is \<open>g\<close>.\<close>

definition slayer_helm_match :: "string \<Rightarrow> string option option" where
  "slayer_helm_match s = slayer_alts slayer_prefixes s"

subsection \<open>The resolver\<close>

definition header :: string where
  "header =
     ''/**\<newline>'' @
     '' * A map of item ID -> item ID for items that are identical in function, but different in appearance. This includes\<newline>'' @
     '' * '' @ [CHR 0x22] @ ''locked'' @ [CHR 0x22] @
     '' variants of items, broken/degraded variants of armour and weapons, and cosmetic recolours of equipment.\<newline>'' @
     '' * @see https://oldschool.runescape.wiki/w/Trouver_parchment\<newline>'' @
     '' */\<newline>'' @
     ''export const equipmentAliases = {''"

text \<open>The text appended for one alias: \<open>'\n    %s: %s, // %s'\<close>.\<close>

definition entry_text :: "item \<Rightarrow> item \<Rightarrow> string" where
  "entry_text variant_item base_variant =
     ''\<newline>    '' @ py_str (item_id variant_item) @ '': '' @ py_str (item_id base_variant) @
     '', // '' @ name variant_item @ ''#'' @ version variant_item"

text \<open>
  \<open>handle_base_variant\<close>, with the global \<open>data\<close> as first argument and as result.
  \<open>next(..., None)\<close> takes the first item of \<open>all_items\<close> that has the name and the
  version asked for.
\<close>

definition handle_base_variant :: "string \<Rightarrow> item list \<Rightarrow> item \<Rightarrow> string \<Rightarrow> string \<Rightarrow> string" where
  "handle_base_variant data all_items variant_item base_name base_version =
     (case find (\<lambda>x. name x = base_name \<and> version x = base_version) all_items of
        None \<Rightarrow> data
      | Some base_variant \<Rightarrow> data @ entry_text variant_item base_variant)"

text \<open>The body of the loop \<open>for item in all_items\<close>: the chain of \<open>if\<close> and \<open>elif\<close>.\<close>

definition classify_item :: "string \<Rightarrow> item list \<Rightarrow> item \<Rightarrow> string" where
  "classify_item data all_items item =
     (let slayer_helm = slayer_helm_match (name item) in
      if version item = ''Locked'' then
        handle_base_variant data all_items item (name item) ''Normal''
      else if slayer_helm \<noteq> None then
        handle_base_variant data all_items item
          (''Slayer helmet'' @ or_empty (the slayer_helm)) ''''
      else if match_alts [''Soul Wars'', ''Emir's Arena''] (version item) then
        handle_base_variant data all_items item (name item) ''Nightmare Zone''
      else if match_alts [''25'', ''50'', ''75'', ''100''] (version item) then
        handle_base_variant data all_items item (name item) ''Undamaged''
      else data)"

fun resolve_loop :: "string \<Rightarrow> item list \<Rightarrow> item list \<Rightarrow> string" where
  "resolve_loop data all_items [] = data"
| "resolve_loop data all_items (item # rest) =
     resolve_loop (classify_item data all_items item) all_items rest"

text \<open>
  The second half of \<open>main\<close>, from the sort on: the text written to the file.
  \<open>list.sort\<close> is stable, as \<open>sort_key\<close> is.
\<close>

definition resolve :: "item list \<Rightarrow> string" where
  "resolve items =
     (let all_items = sort_key name items in
      resolve_loop header all_items all_items @ ''\<newline>}'')"

text \<open>
  Which call of \<open>handle_base_variant\<close> the chain makes for an item: the name and the
  version of the base asked for, or \<open>None\<close> when no branch is taken.
\<close>

definition designated_base :: "item \<Rightarrow> (string \<times> string) option" where
  "designated_base item =
     (if version item = ''Locked'' then Some (name item, ''Normal'')
      else case slayer_helm_match (name item) of
        Some g \<Rightarrow> Some (''Slayer helmet'' @ or_empty g, '''')
      | None \<Rightarrow>
          if match_alts [''Soul Wars'', ''Emir's Arena''] (version item)
          then Some (name item, ''Nightmare Zone'')
          else if match_alts [''25'', ''50'', ''75'', ''100''] (version item)
          then Some (name item, ''Undamaged'')
          else None)"

text \<open>The four tests of the chain all fail.\<close>

definition matches_no_rule :: "item \<Rightarrow> bool" where
  "matches_no_rule item =
     (version item \<noteq> ''Locked'' \<and>
      slayer_helm_match (name item) = None \<and>
      \<not> match_alts [''Soul Wars'', ''Emir's Arena''] (version item) \<and>
      \<not> match_alts [''25'', ''50'', ''75'', ''100''] (version item))"

text \<open>The search of \<open>handle_base_variant\<close> on its own.\<close>

definition base_lookup :: "item list \<Rightarrow> string \<Rightarrow> string \<Rightarrow> item option" where
  "base_lookup all_items base_name base_version =
     find (\<lambda>x. name x = base_name \<and> version x = base_version) all_items"

text \<open>
  The alias entries as pairs of a variant and its base, in the order in which the loop
  appends their text; \<open>resolve_aliases\<close> below shows that the text written is the header,
  the text of these pairs, and the closing brace.
\<close>

fun alias_pairs :: "item list \<Rightarrow> item list \<Rightarrow> (item \<times> item) list" where
  "alias_pairs all_items [] = []"
| "alias_pairs all_items (x # xs) =
     (case designated_base x of
        None \<Rightarrow> alias_pairs all_items xs
      | Some (bn, bv) \<Rightarrow>
          (case base_lookup all_items bn bv of
             None \<Rightarrow> alias_pairs all_items xs
           | Some b \<Rightarrow> (x, b) # alias_pairs all_items xs))"

definition aliases :: "item list \<Rightarrow> (item \<times> item) list" where
  "aliases items = alias_pairs (sort_key name items) (sort_key name items)"

definition entries_text :: "(item \<times> item) list \<Rightarrow> string" where
  "entries_text es = concat (map (\<lambda>(v, b). entry_text v b) es)"

text \<open>The key and the value of an entry, and the text that follows them being a comma.\<close>

definition pair_text :: "item \<Rightarrow> item \<Rightarrow> string" where
  "pair_text v b = ''\<newline>    '' @ py_str (item_id v) @ '': '' @ py_str (item_id b)"

definition separator_follows :: "string \<Rightarrow> string \<Rightarrow> bool" where
  "separator_follows p txt = sublist (p @ '','') txt"

text \<open>How many entries map one identifier to another, and how many items carry one.\<close>

definition count_mapping :: "int option \<Rightarrow> int option \<Rightarrow> (item \<times> item) list \<Rightarrow> nat" where
  "count_mapping vid bid es =
     length (filter (\<lambda>e. item_id (fst e) = vid \<and> item_id (snd e) = bid) es)"

definition count_id :: "int option \<Rightarrow> item list \<Rightarrow> nat" where
  "count_id i items = length (filter (\<lambda>y. item_id y = i) items)"

definition entries_of_id :: "int option \<Rightarrow> (item \<times> item) list \<Rightarrow> (item \<times> item) list" where
  "entries_of_id i es = filter (\<lambda>e. item_id (fst e) = i) es"

text \<open>
  The entries of one variant, the entries whose variant asks for one base, and the
  records that have one name and one version.
\<close>

definition entries_of_item :: "item \<Rightarrow> (item \<times> item) list \<Rightarrow> (item \<times> item) list" where
  "entries_of_item x es = filter (\<lambda>e. fst e = x) es"

definition entries_for_base ::
  "string \<Rightarrow> string \<Rightarrow> (item \<times> item) list \<Rightarrow> (item \<times> item) list" where
  "entries_for_base bn bv es = filter (\<lambda>e. designated_base (fst e) = Some (bn, bv)) es"

definition records_named :: "string \<Rightarrow> string \<Rightarrow> item list \<Rightarrow> item list" where
  "records_named bn bv items = filter (\<lambda>b. name b = bn \<and> version b = bv) items"

subsection \<open>The fetcher\<close>

text \<open>
  The value of \<open>'query-continue-offset'\<close> is a number or a string. \<open>int\<close> of a string
  is Python's own parser; it is a parameter \<open>int_of_str\<close> of the model, \<open>None\<close> where
  Python raises \<open>ValueError\<close>.
\<close>

datatype jval = JInt int | JStr string

datatype py_error = TypeError | ValueError

type_synonym results = "(string \<times> wiki_record) list"

text \<open>
  The decoded response \<open>data\<close>. Field \<open>query\<close> is \<open>None\<close> without the key
  \<open>'query'\<close>, \<open>Some None\<close> when \<open>data['query']\<close> has no key \<open>'results'\<close>.
\<close>

record response =
  query :: "results option option"
  query_continue_offset :: "jval option"

text \<open>\<open>d[k] = v\<close> and \<open>a | b\<close> on dictionaries in insertion order.\<close>

fun dict_set :: "('k \<times> 'v) list \<Rightarrow> 'k \<Rightarrow> 'v \<Rightarrow> ('k \<times> 'v) list" where
  "dict_set [] k v = [(k, v)]"
| "dict_set ((k', v') # d) k v = (if k' = k then (k, v) # d else (k', v') # dict_set d k v)"

definition dict_merge :: "('k \<times> 'v) list \<Rightarrow> ('k \<times> 'v) list \<Rightarrow> ('k \<times> 'v) list" where
  "dict_merge a b = fold (\<lambda>(k, v) d. dict_set d k v) b a"

definition py_int :: "(string \<Rightarrow> int option) \<Rightarrow> jval \<Rightarrow> py_error + int" where
  "py_int int_of_str x =
     (case x of
        JInt i \<Rightarrow> Inr i
      | JStr s \<Rightarrow> (case int_of_str s of None \<Rightarrow> Inl ValueError | Some i \<Rightarrow> Inr i))"

text \<open>
  The loop \<open>while True\<close> of \<open>getEquipmentData\<close>. The responses of the server, one per
  request, are a stream; the result is \<open>None\<close> when the loop never returns,
  \<open>Some (Inl e)\<close> when it raises. In \<open>int(c) < offset\<close> the conversion comes first, and
  the comparison of an integer with a string raises \<open>TypeError\<close>; \<open>offset\<close> becomes the
  value of the response as it is, unconverted.
\<close>

partial_function (option) fetch_loop ::
  "(string \<Rightarrow> int option) \<Rightarrow> response stream \<Rightarrow> results \<Rightarrow> jval \<Rightarrow> (py_error + results) option"
where
  "fetch_loop int_of_str responses equipment offset =
     (let data = shd responses in
      case query data of
        None \<Rightarrow> Some (Inr equipment)
      | Some None \<Rightarrow> Some (Inr equipment)
      | Some (Some rs) \<Rightarrow>
          (let equipment' = dict_merge equipment rs in
           case query_continue_offset data of
             None \<Rightarrow> Some (Inr equipment')
           | Some c \<Rightarrow>
               (case py_int int_of_str c of
                  Inl e \<Rightarrow> Some (Inl e)
                | Inr n \<Rightarrow>
                    (case offset of
                       JStr s \<Rightarrow> Some (Inl TypeError)
                     | JInt off \<Rightarrow>
                         if n < off then Some (Inr equipment')
                         else fetch_loop int_of_str (stl responses) equipment' c))))"

definition getEquipmentData ::
  "(string \<Rightarrow> int option) \<Rightarrow> response stream \<Rightarrow> (py_error + results) option" where
  "getEquipmentData int_of_str responses = fetch_loop int_of_str responses [] (JInt 0)"

text \<open>\<open>main\<close>: the text written to the file, when the fetch returns.\<close>

definition main :: "(string \<Rightarrow> int option) \<Rightarrow> response stream \<Rightarrow> (py_error + string) option" where
  "main int_of_str responses =
     (case getEquipmentData int_of_str responses of
        None \<Rightarrow> None
      | Some (Inl e) \<Rightarrow> Some (Inl e)
      | Some (Inr wiki_data) \<Rightarrow> Some (Inr (resolve (build_items wiki_data))))"

subsection \<open>Example inputs\<close>

text \<open>A page with a result set whose continuation offset is the offset of the first request.\<close>

definition stuck_page :: "results \<Rightarrow> response" where
  "stuck_page rs = \<lparr> query = Some (Some rs), query_continue_offset = Some (JInt 0) \<rparr>"

definition whip_normal :: item where
  "whip_normal = \<lparr> name = ''Abyssal whip'', item_id = Some 4151, version = ''Normal'' \<rparr>"

definition whip_locked :: item where
  "whip_locked = \<lparr> name = ''Abyssal whip'', item_id = Some 21371, version = ''Locked'' \<rparr>"

definition whip_second :: item where
  "whip_second = \<lparr> name = ''Abyssal whip'', item_id = Some 26482, version = ''Normal'' \<rparr>"

definition bronze_plain :: item where
  "bronze_plain = \<lparr> name = ''Bronze sword'', item_id = Some 21371, version = '''' \<rparr>"

definition helm_base :: item where
  "helm_base = \<lparr> name = ''Slayer helmet'', item_id = Some 200, version = '''' \<rparr>"

definition helm_twisted :: item where
  "helm_twisted = \<lparr> name = ''Twisted slayer helmet'', item_id = Some 100, version = '''' \<rparr>"

definition helm_locked :: item where
  "helm_locked = \<lparr> name = ''Black slayer helmet'', item_id = Some 101, version = ''Locked'' \<rparr>"

definition helm_25 :: item where
  "helm_25 = \<lparr> name = ''Black slayer helmet'', item_id = Some 102, version = ''25'' \<rparr>"

definition helm_undamaged :: item where
  "helm_undamaged = \<lparr> name = ''Black slayer helmet'', item_id = Some 103, version = ''Undamaged'' \<rparr>"

definition helm_sw :: item where
  "helm_sw = \<lparr> name = ''Black slayer helmet'', item_id = Some 104, version = ''Soul Wars'' \<rparr>"

definition helm_nmz :: item where
  "helm_nmz = \<lparr> name = ''Black slayer helmet'', item_id = Some 105, version = ''Nightmare Zone'' \<rparr>"

definition body_50 :: item where
  "body_50 = \<lparr> name = ''Ahrim's robetop'', item_id = Some 4874, version = ''50'' \<rparr>"

definition body_undamaged :: item where
  "body_undamaged = \<lparr> name = ''Ahrim's robetop'', item_id = Some 4712, version = ''Undamaged'' \<rparr>"

definition potion_arena :: item where
  "potion_arena = \<lparr> name = ''Overload'', item_id = Some 301, version = ''Emir's Arena'' \<rparr>"

definition potion_nmz :: item where
  "potion_nmz = \<lparr> name = ''Overload'', item_id = Some 302, version = ''Nightmare Zone'' \<rparr>"

lemmas example_items =
  whip_normal_def whip_locked_def whip_second_def bronze_plain_def helm_base_def
  helm_twisted_def helm_locked_def helm_25_def helm_undamaged_def helm_sw_def helm_nmz_def
  body_50_def body_undamaged_def potion_arena_def potion_nmz_def

lemmas regex_defs =
  slayer_helm_match_def slayer_prefixes_def slayer_tail_def at_end_def match_alts_def

lemmas str_defs =
  py_str_def str_of_int_def str_of_nat.simps digit_char_def

lemmas resolve_defs =
  resolve_def classify_item_def handle_base_variant_def entry_text_def

lemmas alias_defs =
  aliases_def designated_base_def base_lookup_def

subsection \<open>The text written and the alias pairs\<close>

lemma classify_item_designated:
  "classify_item data all_items x =
     (case designated_base x of
        None \<Rightarrow> data
      | Some (bn, bv) \<Rightarrow> handle_base_variant data all_items x bn bv)"
  by (auto simp: classify_item_def designated_base_def Let_def split: option.splits)

lemma handle_base_variant_lookup:
  "handle_base_variant data all_items v bn bv =
     (case base_lookup all_items bn bv of
        None \<Rightarrow> data
      | Some b \<Rightarrow> data @ entry_text v b)"
  by (simp add: handle_base_variant_def base_lookup_def)

lemma resolve_loop_pairs:
  "resolve_loop data all_items xs = data @ entries_text (alias_pairs all_items xs)"
  by (induction xs arbitrary: data)
     (auto simp: classify_item_designated handle_base_variant_lookup entries_text_def
           split: option.splits)

lemma resolve_loop_append:
  "resolve_loop data all_items (xs @ ys) =
     resolve_loop (resolve_loop data all_items xs) all_items ys"
  by (induction xs arbitrary: data) auto

lemma resolve_aliases:
  "resolve items = header @ entries_text (aliases items) @ ''\<newline>}''"
  by (simp add: resolve_def aliases_def resolve_loop_pairs Let_def)

lemma designated_base_None:
  "designated_base x = None \<longleftrightarrow> matches_no_rule x"
  by (auto simp: designated_base_def matches_no_rule_def split: option.splits)

lemma alias_pairs_set:
  "(v, b) \<in> set (alias_pairs all_items xs) \<longleftrightarrow>
     v \<in> set xs \<and>
     (\<exists>bn bv. designated_base v = Some (bn, bv) \<and> base_lookup all_items bn bv = Some b)"
  by (induction xs) (auto split: option.splits)

lemma alias_pairs_count_le:
  "length (filter (\<lambda>e. P (fst e)) (alias_pairs all_items xs)) \<le> length (filter P xs)"
  by (induction xs) (auto split: option.splits)

subsection \<open>The search in the sorted list\<close>

lemma find_eq_filter:
  "find P xs = (case filter P xs of [] \<Rightarrow> None | x # _ \<Rightarrow> Some x)"
  by (induction xs) auto

lemma filter_key_sort:
  "filter (\<lambda>x. f x = k \<and> Q x) (sort_key f xs) = filter (\<lambda>x. f x = k \<and> Q x) xs"
proof -
  have two_steps: "filter (\<lambda>x. f x = k \<and> Q x) ys = filter Q (filter (\<lambda>x. f x = k) ys)" for ys
    by (simp add: conj_commute)
  show ?thesis
    by (simp only: two_steps sort_key_stable)
qed

lemma base_lookup_sort:
  "base_lookup (sort_key name items) bn bv = base_lookup items bn bv"
  by (simp add: base_lookup_def find_eq_filter filter_key_sort)

lemma base_lookup_Some:
  "base_lookup all_items bn bv = Some b \<Longrightarrow> b \<in> set all_items \<and> name b = bn \<and> version b = bv"
  by (auto simp: base_lookup_def find_Some_iff)

lemma base_lookup_exists:
  "b0 \<in> set all_items \<Longrightarrow> name b0 = bn \<Longrightarrow> version b0 = bv \<Longrightarrow>
     \<exists>b. base_lookup all_items bn bv = Some b"
  by (cases "base_lookup all_items bn bv") (auto simp: base_lookup_def find_None_iff)

lemma base_lookup_absent:
  "\<forall>b \<in> set all_items. name b = bn \<longrightarrow> version b \<noteq> bv \<Longrightarrow> base_lookup all_items bn bv = None"
  by (auto simp: base_lookup_def find_None_iff)

lemma aliases_set:
  "(v, b) \<in> set (aliases items) \<longleftrightarrow>
     v \<in> set items \<and>
     (\<exists>bn bv. designated_base v = Some (bn, bv) \<and> base_lookup items bn bv = Some b)"
  by (simp add: aliases_def alias_pairs_set base_lookup_sort)

lemma entries_text_sublist:
  assumes "(v, b) \<in> set es"
  shows "sublist (entry_text v b) (entries_text es)"
proof -
  from assms obtain ps ss where "es = ps @ (v, b) # ss"
    by (auto dest: split_list)
  then have "entries_text es = entries_text ps @ entry_text v b @ entries_text ss"
    by (simp add: entries_text_def)
  then show ?thesis
    unfolding sublist_def by blast
qed

lemma alias_in_text:
  assumes "(v, b) \<in> set (aliases items)"
  shows "sublist (entry_text v b) (resolve items)"
proof -
  from assms obtain ps ss where "entries_text (aliases items) = ps @ entry_text v b @ ss"
    using entries_text_sublist sublist_def by metis
  then have "resolve items = (header @ ps) @ entry_text v b @ (ss @ ''\<newline>}'')"
    by (simp add: resolve_aliases)
  then show ?thesis
    unfolding sublist_def by blast
qed

lemma aliases_count_le:
  "length (filter (\<lambda>e. P (fst e)) (aliases items)) \<le> length (filter P items)"
proof -
  have "length (filter P (sort_key name items)) = length (filter P items)"
    by (simp add: filter_sort)
  then show ?thesis
    using alias_pairs_count_le [of P "sort_key name items" "sort_key name items"]
    by (simp add: aliases_def)
qed

lemma count_mapping_bounds:
  assumes "(x, b) \<in> set (aliases items)"
  shows "1 \<le> count_mapping (item_id x) (item_id b) (aliases items)"
    and "count_mapping (item_id x) (item_id b) (aliases items) \<le> count_id (item_id x) items"
proof -
  let ?Q = "\<lambda>e. item_id (fst e) = item_id x \<and> item_id (snd e) = item_id b"
  from assms have "(x, b) \<in> set (filter ?Q (aliases items))"
    by simp
  then have "0 < length (filter ?Q (aliases items))"
    by (rule length_pos_if_in_set)
  then have "1 \<le> length (filter ?Q (aliases items))"
    by linarith
  then show "1 \<le> count_mapping (item_id x) (item_id b) (aliases items)"
    by (simp only: count_mapping_def)
  have "filter ?Q (aliases items) =
        filter (\<lambda>e. item_id (snd e) = item_id b)
          (filter (\<lambda>e. item_id (fst e) = item_id x) (aliases items))"
    by (simp add: conj_commute)
  then have "length (filter ?Q (aliases items)) \<le>
        length (filter (\<lambda>e. item_id (fst e) = item_id x) (aliases items))"
    by (simp only: length_filter_le)
  also have "\<dots> \<le> length (filter (\<lambda>y. item_id y = item_id x) items)"
    by (rule aliases_count_le)
  finally show "count_mapping (item_id x) (item_id b) (aliases items) \<le> count_id (item_id x) items"
    by (simp add: count_mapping_def count_id_def)
qed

lemma slayer_plain_all:
  "\<forall>p \<in> set slayer_prefixes. slayer_helm_match (p @ '' slayer helmet'') = Some None"
  by (simp add: regex_defs)

lemma slayer_imbued_all:
  "\<forall>p \<in> set slayer_prefixes.
     slayer_helm_match (p @ '' slayer helmet'' @ '' (i)'') = Some (Some '' (i)'')"
  by (simp add: regex_defs)

lemma slayer_designated:
  assumes "p \<in> set slayer_prefixes" and "sfx = '''' \<or> sfx = '' (i)''"
    and "name x = p @ '' slayer helmet'' @ sfx" and "version x \<noteq> ''Locked''"
  shows "designated_base x = Some (''Slayer helmet'' @ sfx, '''')"
proof -
  from assms(2) show ?thesis
  proof
    assume "sfx = ''''"
    then show ?thesis
      using assms(1,3,4) slayer_plain_all
      by (simp add: designated_base_def or_empty_def)
  next
    assume "sfx = '' (i)''"
    then show ?thesis
      using assms(1,3,4) slayer_imbued_all
      by (simp add: designated_base_def or_empty_def)
  qed
qed

lemmas eval_defs =
  example_items regex_defs str_defs resolve_defs alias_defs or_empty_def

subsection \<open>The fetch loop\<close>

lemma fetch_loop_no_results:
  "query (shd responses) = None \<or> query (shd responses) = Some None \<Longrightarrow>
     fetch_loop int_of_str responses equipment offset = Some (Inr equipment)"
  by (subst fetch_loop.simps) (auto simp: Let_def)

lemma fetch_loop_no_continuation:
  "query (shd responses) = Some (Some rs) \<Longrightarrow> query_continue_offset (shd responses) = None \<Longrightarrow>
     fetch_loop int_of_str responses equipment offset = Some (Inr (dict_merge equipment rs))"
  by (subst fetch_loop.simps) (simp add: Let_def)

lemma fetch_loop_smaller:
  "query (shd responses) = Some (Some rs) \<Longrightarrow>
   query_continue_offset (shd responses) = Some (JInt n) \<Longrightarrow> n < off \<Longrightarrow>
     fetch_loop int_of_str responses equipment (JInt off) = Some (Inr (dict_merge equipment rs))"
  by (subst fetch_loop.simps) (simp add: Let_def py_int_def)

lemma fetch_loop_not_smaller:
  "query (shd responses) = Some (Some rs) \<Longrightarrow>
   query_continue_offset (shd responses) = Some (JInt n) \<Longrightarrow> off \<le> n \<Longrightarrow>
     fetch_loop int_of_str responses equipment (JInt off) =
     fetch_loop int_of_str (stl responses) (dict_merge equipment rs) (JInt n)"
  by (subst fetch_loop.simps) (simp add: Let_def py_int_def)

lemma stuck_never:
  assumes "fetch_loop f rs eq off = Some y"
  shows "\<not> (rs = sconst (stuck_page r) \<and> off = JInt 0)"
proof (rule fetch_loop.raw_induct
         [where P = "\<lambda>f rs eq off y. \<not> (rs = sconst (stuck_page r) \<and> off = JInt 0)", OF _ assms])
  fix g f rs eq off y
  assume IH: "\<And>f rs eq off y. g f rs eq off = Some y \<Longrightarrow>
                \<not> (rs = sconst (stuck_page r) \<and> off = JInt 0)"
    and step: "(let data = shd rs in
      case query data of
        None \<Rightarrow> Some (Inr eq)
      | Some None \<Rightarrow> Some (Inr eq)
      | Some (Some rs') \<Rightarrow>
          (let equipment' = dict_merge eq rs' in
           case query_continue_offset data of
             None \<Rightarrow> Some (Inr equipment')
           | Some c \<Rightarrow>
               (case py_int f c of
                  Inl e \<Rightarrow> Some (Inl e)
                | Inr n \<Rightarrow>
                    (case off of
                       JStr s \<Rightarrow> Some (Inl TypeError)
                     | JInt off' \<Rightarrow>
                         if n < off' then Some (Inr equipment')
                         else g f (stl rs) equipment' c)))) = Some y"
  show "\<not> (rs = sconst (stuck_page r) \<and> off = JInt 0)"
  proof
    assume "rs = sconst (stuck_page r) \<and> off = JInt 0"
    with step have "g f (sconst (stuck_page r)) (dict_merge eq r) (JInt 0) = Some y"
      by (simp add: stuck_page_def py_int_def)
    with IH show False by blast
  qed
qed

text \<open>
  C1. The claim: the fetch loop always terminates, and a continuation offset equal to the
  current offset stops it. The code stops only on an offset smaller than the current
  one: when every response carries a result set and the continuation offset 0, the
  offset of the first request, \<open>getEquipmentData\<close> never returns.
\<close>

theorem getEquipmentData_equal_offset_never_returns:
  "getEquipmentData int_of_str (sconst (stuck_page rs)) = None"
proof (cases "getEquipmentData int_of_str (sconst (stuck_page rs))")
  case None
  then show ?thesis .
next
  case (Some y)
  then have "fetch_loop int_of_str (sconst (stuck_page rs)) [] (JInt 0) = Some y"
    by (simp add: getEquipmentData_def)
  from stuck_never [OF this, of rs] show ?thesis by simp
qed

subsection \<open>The serialized text\<close>

text \<open>
  C2, as amended. The text written is the header, then for every alias entry, the last
  one included, a line with the two identifiers, the separating comma and the comment
  \<open>name#version\<close> of the variant, then the closing brace on a line of its own.
\<close>

theorem every_entry_has_separator_and_comment:
  "resolve items =
     header @
     concat (map (\<lambda>(v, b). pair_text v b @ '','' @ '' // '' @ name v @ ''#'' @ version v)
               (aliases items)) @
     ''\<newline>}''"
proof -
  have "entry_text v b = pair_text v b @ '','' @ '' // '' @ name v @ ''#'' @ version v" for v b
    by (simp add: entry_text_def pair_text_def)
  then show ?thesis
    by (simp add: resolve_aliases entries_text_def)
qed

lemma resolve_whip:
  "resolve [whip_locked, whip_normal] =
     header @ ''\<newline>    21371: 4151, // Abyssal whip#Locked\<newline>}''"
  by (simp add: eval_defs)

lemma aliases_whip: "aliases [whip_locked, whip_normal] = [(whip_locked, whip_normal)]"
  by (simp add: eval_defs)

text \<open>
  The claim as stated fails: in the output for a Locked whip and its Normal base, the
  only entry, which is the final one, is followed by the separator.
\<close>

theorem final_entry_has_separator_counterexample:
  "last (aliases [whip_locked, whip_normal]) = (whip_locked, whip_normal) \<and>
   separator_follows (pair_text whip_locked whip_normal) (resolve [whip_locked, whip_normal])"
proof -
  have "resolve [whip_locked, whip_normal] =
          header @ (pair_text whip_locked whip_normal @ '','') @ '' // Abyssal whip#Locked\<newline>}''"
    by (simp only: resolve_whip) (simp add: pair_text_def example_items str_defs)
  then have "separator_follows (pair_text whip_locked whip_normal) (resolve [whip_locked, whip_normal])"
    unfolding separator_follows_def sublist_def by blast
  then show ?thesis
    by (simp add: aliases_whip)
qed

subsection \<open>The Locked rule\<close>

text \<open>
  C3, as amended. For a catalog record with version Locked for which a record with the
  same name and version Normal exists, the first such Normal record is the base, the
  output contains the entry of the pair, and the number of entries that map the
  identifier of the Locked record to the identifier of that base is at least one and at
  most the number of catalog records that carry the identifier of the Locked record:
  exactly one when no other record carries it.
\<close>

theorem locked_alias_entry:
  assumes "x \<in> set items" and "version x = ''Locked''"
    and "n \<in> set items" and "name n = name x" and "version n = ''Normal''"
  shows "\<exists>b. base_lookup items (name x) ''Normal'' = Some b \<and>
             (x, b) \<in> set (aliases items) \<and>
             sublist (entry_text x b) (resolve items) \<and>
             1 \<le> count_mapping (item_id x) (item_id b) (aliases items) \<and>
             count_mapping (item_id x) (item_id b) (aliases items) \<le> count_id (item_id x) items"
proof -
  from assms(3-5) obtain b where b: "base_lookup items (name x) ''Normal'' = Some b"
    using base_lookup_exists by blast
  from assms(2) have "designated_base x = Some (name x, ''Normal'')"
    by (simp add: designated_base_def)
  with assms(1) b have mem: "(x, b) \<in> set (aliases items)"
    by (auto simp: aliases_set)
  from b mem alias_in_text [OF mem] count_mapping_bounds [OF mem] show ?thesis
    by blast
qed

theorem locked_alias_entry_witness:
  "whip_locked \<in> set [whip_locked, whip_normal] \<and> version whip_locked = ''Locked'' \<and>
   whip_normal \<in> set [whip_locked, whip_normal] \<and> name whip_normal = name whip_locked \<and>
   version whip_normal = ''Normal'' \<and>
   count_id (item_id whip_locked) [whip_locked, whip_normal] = 1 \<and>
   (\<exists>b. base_lookup [whip_locked, whip_normal] (name whip_locked) ''Normal'' = Some b \<and>
        (whip_locked, b) \<in> set (aliases [whip_locked, whip_normal]) \<and>
        sublist (entry_text whip_locked b) (resolve [whip_locked, whip_normal]) \<and>
        count_mapping (item_id whip_locked) (item_id b) (aliases [whip_locked, whip_normal]) = 1)"
proof -
  have hyps: "whip_locked \<in> set [whip_locked, whip_normal]" "version whip_locked = ''Locked''"
    "whip_normal \<in> set [whip_locked, whip_normal]" "name whip_normal = name whip_locked"
    "version whip_normal = ''Normal''"
    by (simp_all add: example_items)
  have one: "count_id (item_id whip_locked) [whip_locked, whip_normal] = 1"
    by (simp add: count_id_def example_items)
  from locked_alias_entry [OF hyps] one hyps show ?thesis
    by (metis le_antisym)
qed

text \<open>
  The claim as stated fails: when two records of the catalog are the same Locked whip,
  the output contains two entries that map its identifier to the identifier of the
  Normal whip.
\<close>

theorem locked_alias_twice_counterexample:
  "build_items
     [(''Abyssal whip#Locked'', Some \<lparr>Item_ID = [21371], Version_anchor = [''Locked'']\<rparr>),
      (''Abyssal whip#Locked again'', Some \<lparr>Item_ID = [21371], Version_anchor = [''Locked'']\<rparr>),
      (''Abyssal whip#Normal'', Some \<lparr>Item_ID = [4151], Version_anchor = [''Normal'']\<rparr>)] =
     [whip_locked, whip_locked, whip_normal] \<and>
   count_mapping (item_id whip_locked) (item_id whip_normal)
     (aliases [whip_locked, whip_locked, whip_normal]) = 2 \<and>
   resolve [whip_locked, whip_locked, whip_normal] =
     header @ ''\<newline>    21371: 4151, // Abyssal whip#Locked'' @
              ''\<newline>    21371: 4151, // Abyssal whip#Locked'' @ ''\<newline>}''"
  by (simp add: eval_defs count_mapping_def make_item_def rsplit_head_def getPrintoutValue_def)

subsection \<open>The version rules\<close>

lemma degraded_designated:
  assumes "version x \<in> {''25'', ''50'', ''75'', ''100''}" and "slayer_helm_match (name x) = None"
  shows "designated_base x = Some (name x, ''Undamaged'')"
proof -
  from assms(1) consider "version x = ''25''" | "version x = ''50''" | "version x = ''75''"
    | "version x = ''100''"
    by blast
  then show ?thesis
    by cases (simp_all add: designated_base_def match_alts_def at_end_def assms(2))
qed

lemma minigame_designated:
  assumes "version x \<in> {''Soul Wars'', ''Emir's Arena''}" and "slayer_helm_match (name x) = None"
  shows "designated_base x = Some (name x, ''Nightmare Zone'')"
proof -
  from assms(1) consider "version x = ''Soul Wars''" | "version x = ''Emir's Arena''"
    by blast
  then show ?thesis
    by cases (simp_all add: designated_base_def match_alts_def at_end_def assms(2))
qed

subsection \<open>The slayer helmet rule\<close>

text \<open>
  C4, as amended. For a catalog record whose name is one of the ten prefixes followed by
  " slayer helmet" and optionally by " (i)", and whose version is not Locked, the output
  contains the entry that maps the record to the first record named "Slayer helmet" (with
  the same suffix) of empty version, when such a record exists.
\<close>

theorem slayer_helmet_alias_entry:
  assumes "x \<in> set items" and "p \<in> set slayer_prefixes" and "sfx = '''' \<or> sfx = '' (i)''"
    and "name x = p @ '' slayer helmet'' @ sfx" and "version x \<noteq> ''Locked''"
    and "n \<in> set items" and "name n = ''Slayer helmet'' @ sfx" and "version n = ''''"
  shows "\<exists>b. base_lookup items (''Slayer helmet'' @ sfx) '''' = Some b \<and>
             (x, b) \<in> set (aliases items) \<and>
             sublist (entry_text x b) (resolve items)"
proof -
  from assms(6-8) obtain b where b: "base_lookup items (''Slayer helmet'' @ sfx) '''' = Some b"
    using base_lookup_exists by blast
  have "designated_base x = Some (''Slayer helmet'' @ sfx, '''')"
    using assms(2-5) by (rule slayer_designated)
  with assms(1) b have mem: "(x, b) \<in> set (aliases items)"
    by (auto simp: aliases_set)
  from b mem alias_in_text [OF mem] show ?thesis
    by blast
qed

theorem slayer_helmet_alias_entry_witness:
  "helm_twisted \<in> set [helm_twisted, helm_base] \<and> ''Twisted'' \<in> set slayer_prefixes \<and>
   name helm_twisted = ''Twisted'' @ '' slayer helmet'' @ '''' \<and>
   version helm_twisted \<noteq> ''Locked'' \<and>
   helm_base \<in> set [helm_twisted, helm_base] \<and> name helm_base = ''Slayer helmet'' @ '''' \<and>
   version helm_base = '''' \<and>
   (\<exists>b. base_lookup [helm_twisted, helm_base] (''Slayer helmet'' @ '''') '''' = Some b \<and>
        (helm_twisted, b) \<in> set (aliases [helm_twisted, helm_base]) \<and>
        sublist (entry_text helm_twisted b) (resolve [helm_twisted, helm_base]))"
proof -
  have hyps: "helm_twisted \<in> set [helm_twisted, helm_base]" "''Twisted'' \<in> set slayer_prefixes"
    "'''' = '''' \<or> '''' = '' (i)''"
    "name helm_twisted = ''Twisted'' @ '' slayer helmet'' @ ''''"
    "version helm_twisted \<noteq> ''Locked''"
    "helm_base \<in> set [helm_twisted, helm_base]" "name helm_base = ''Slayer helmet'' @ ''''"
    "version helm_base = ''''"
    by (simp_all add: example_items slayer_prefixes_def)
  from slayer_helmet_alias_entry [OF hyps] hyps show ?thesis
    by blast
qed

text \<open>
  The claim as stated fails: a record named "Black slayer helmet" with version Locked
  takes the Locked branch, which asks for a Normal record of the same name; with the
  record "Slayer helmet" in the catalog the output contains no entry.
\<close>

theorem slayer_helmet_locked_counterexample:
  "name helm_locked = ''Black'' @ '' slayer helmet'' \<and>
   name helm_base = ''Slayer helmet'' \<and> version helm_base = '''' \<and>
   aliases [helm_locked, helm_base] = [] \<and>
   resolve [helm_locked, helm_base] = header @ ''\<newline>}''"
  by (simp add: eval_defs)

subsection \<open>The degradation rule\<close>

text \<open>
  C5, as amended. For a catalog record whose version is exactly one of "25", "50", "75",
  "100" and whose name is not matched by the slayer helmet pattern, the output contains
  the entry that maps the record to the first record of the same name and version
  Undamaged, when such a record exists.
\<close>

theorem degraded_alias_entry:
  assumes "x \<in> set items" and "version x \<in> {''25'', ''50'', ''75'', ''100''}"
    and "slayer_helm_match (name x) = None"
    and "n \<in> set items" and "name n = name x" and "version n = ''Undamaged''"
  shows "\<exists>b. base_lookup items (name x) ''Undamaged'' = Some b \<and>
             (x, b) \<in> set (aliases items) \<and>
             sublist (entry_text x b) (resolve items)"
proof -
  from assms(4-6) obtain b where b: "base_lookup items (name x) ''Undamaged'' = Some b"
    using base_lookup_exists by blast
  from assms(2,3) have "designated_base x = Some (name x, ''Undamaged'')"
    by (rule degraded_designated)
  with assms(1) b have mem: "(x, b) \<in> set (aliases items)"
    by (auto simp: aliases_set)
  from b mem alias_in_text [OF mem] show ?thesis
    by blast
qed

theorem degraded_alias_entry_witness:
  "body_50 \<in> set [body_50, body_undamaged] \<and> version body_50 = ''50'' \<and>
   slayer_helm_match (name body_50) = None \<and>
   body_undamaged \<in> set [body_50, body_undamaged] \<and> name body_undamaged = name body_50 \<and>
   version body_undamaged = ''Undamaged'' \<and>
   (\<exists>b. base_lookup [body_50, body_undamaged] (name body_50) ''Undamaged'' = Some b \<and>
        (body_50, b) \<in> set (aliases [body_50, body_undamaged]) \<and>
        sublist (entry_text body_50 b) (resolve [body_50, body_undamaged]))"
proof -
  have hyps: "body_50 \<in> set [body_50, body_undamaged]"
    "version body_50 \<in> {''25'', ''50'', ''75'', ''100''}"
    "slayer_helm_match (name body_50) = None"
    "body_undamaged \<in> set [body_50, body_undamaged]" "name body_undamaged = name body_50"
    "version body_undamaged = ''Undamaged''"
    by (simp_all add: example_items regex_defs)
  have "version body_50 = ''50''"
    by (simp add: example_items)
  with degraded_alias_entry [OF hyps] hyps show ?thesis
    by blast
qed

text \<open>
  The claim as stated fails: a record named "Black slayer helmet" with version "25" takes
  the slayer helmet branch, which comes first; the output maps it to "Slayer helmet" and
  contains no entry that maps it to the Undamaged record of its name.
\<close>

theorem degraded_slayer_helmet_counterexample:
  "version helm_25 = ''25'' \<and> name helm_undamaged = name helm_25 \<and>
   version helm_undamaged = ''Undamaged'' \<and>
   aliases [helm_25, helm_undamaged, helm_base] =
     [(helm_25, helm_base), (helm_undamaged, helm_base)] \<and>
   count_mapping (item_id helm_25) (item_id helm_undamaged)
     (aliases [helm_25, helm_undamaged, helm_base]) = 0 \<and>
   resolve [helm_25, helm_undamaged, helm_base] =
     header @ ''\<newline>    102: 200, // Black slayer helmet#25'' @
              ''\<newline>    103: 200, // Black slayer helmet#Undamaged'' @ ''\<newline>}''"
  by (simp add: eval_defs count_mapping_def)

subsection \<open>The minigame rule\<close>

text \<open>
  C6, as amended. For a catalog record whose version is exactly "Soul Wars" or
  "Emir's Arena" and whose name is not matched by the slayer helmet pattern, the output
  contains the entry that maps the record to the first record of the same name and
  version "Nightmare Zone", when such a record exists.
\<close>

theorem minigame_alias_entry:
  assumes "x \<in> set items" and "version x \<in> {''Soul Wars'', ''Emir's Arena''}"
    and "slayer_helm_match (name x) = None"
    and "n \<in> set items" and "name n = name x" and "version n = ''Nightmare Zone''"
  shows "\<exists>b. base_lookup items (name x) ''Nightmare Zone'' = Some b \<and>
             (x, b) \<in> set (aliases items) \<and>
             sublist (entry_text x b) (resolve items)"
proof -
  from assms(4-6) obtain b where b: "base_lookup items (name x) ''Nightmare Zone'' = Some b"
    using base_lookup_exists by blast
  from assms(2,3) have "designated_base x = Some (name x, ''Nightmare Zone'')"
    by (rule minigame_designated)
  with assms(1) b have mem: "(x, b) \<in> set (aliases items)"
    by (auto simp: aliases_set)
  from b mem alias_in_text [OF mem] show ?thesis
    by blast
qed

theorem minigame_alias_entry_witness:
  "potion_arena \<in> set [potion_nmz, potion_arena] \<and> version potion_arena = ''Emir's Arena'' \<and>
   slayer_helm_match (name potion_arena) = None \<and>
   potion_nmz \<in> set [potion_nmz, potion_arena] \<and> name potion_nmz = name potion_arena \<and>
   version potion_nmz = ''Nightmare Zone'' \<and>
   (\<exists>b. base_lookup [potion_nmz, potion_arena] (name potion_arena) ''Nightmare Zone'' = Some b \<and>
        (potion_arena, b) \<in> set (aliases [potion_nmz, potion_arena]) \<and>
        sublist (entry_text potion_arena b) (resolve [potion_nmz, potion_arena]))"
proof -
  have hyps: "potion_arena \<in> set [potion_nmz, potion_arena]"
    "version potion_arena \<in> {''Soul Wars'', ''Emir's Arena''}"
    "slayer_helm_match (name potion_arena) = None"
    "potion_nmz \<in> set [potion_nmz, potion_arena]" "name potion_nmz = name potion_arena"
    "version potion_nmz = ''Nightmare Zone''"
    by (simp_all add: example_items regex_defs)
  have "version potion_arena = ''Emir's Arena''"
    by (simp add: example_items)
  with minigame_alias_entry [OF hyps] hyps show ?thesis
    by blast
qed

text \<open>
  The claim as stated fails: a record named "Black slayer helmet" with version
  "Soul Wars" takes the slayer helmet branch; the output maps it to "Slayer helmet" and
  contains no entry that maps it to the "Nightmare Zone" record of its name.
\<close>

theorem minigame_slayer_helmet_counterexample:
  "version helm_sw = ''Soul Wars'' \<and> name helm_nmz = name helm_sw \<and>
   version helm_nmz = ''Nightmare Zone'' \<and>
   aliases [helm_sw, helm_nmz, helm_base] =
     [(helm_sw, helm_base), (helm_nmz, helm_base)] \<and>
   count_mapping (item_id helm_sw) (item_id helm_nmz)
     (aliases [helm_sw, helm_nmz, helm_base]) = 0 \<and>
   resolve [helm_sw, helm_nmz, helm_base] =
     header @ ''\<newline>    104: 200, // Black slayer helmet#Soul Wars'' @
              ''\<newline>    105: 200, // Black slayer helmet#Nightmare Zone'' @ ''\<newline>}''"
  by (simp add: eval_defs count_mapping_def)

subsection \<open>A base that is absent\<close>

lemma base_lookup_no_record:
  "records_named bn bv items = [] \<Longrightarrow> base_lookup (sort_key name items) bn bv = None"
  by (simp add: base_lookup_sort) (simp add: base_lookup_def records_named_def find_eq_filter)

text \<open>
  C7. A record for which the chain asks for a base (name \<open>bn\<close>, version \<open>bv\<close>) that no
  record of the catalog has: its step of the loop leaves the text as it is, whatever the
  text (the step is a total function: there is no error outcome), the records after it
  are processed as if it were not in the list, and the output has no entry for it.
\<close>

theorem absent_base_emits_nothing:
  assumes "designated_base x = Some (bn, bv)" and "records_named bn bv items = []"
  shows "classify_item data (sort_key name items) x = data \<and>
         resolve_loop data (sort_key name items) (xs @ x # ys) =
           resolve_loop data (sort_key name items) (xs @ ys) \<and>
         entries_of_item x (aliases items) = []"
proof -
  have none: "base_lookup (sort_key name items) bn bv = None"
    using assms(2) by (rule base_lookup_no_record)
  have step: "classify_item d (sort_key name items) x = d" for d
    using assms(1) none by (simp add: classify_item_designated handle_base_variant_lookup)
  have loop: "resolve_loop data (sort_key name items) (xs @ x # ys) =
              resolve_loop data (sort_key name items) (xs @ ys)"
    by (simp add: resolve_loop_append step)
  have "fst e \<noteq> x" if "e \<in> set (aliases items)" for e
  proof
    assume "fst e = x"
    with that have "(x, snd e) \<in> set (aliases items)"
      by (metis prod.collapse)
    with assms(1) have "base_lookup items bn bv = Some (snd e)"
      by (auto simp: aliases_set)
    with none show False
      by (simp add: base_lookup_sort)
  qed
  then have "entries_of_item x (aliases items) = []"
    by (auto simp: entries_of_item_def filter_empty_conv)
  with step loop show ?thesis
    by simp
qed

theorem absent_base_emits_nothing_witness:
  "designated_base body_50 = Some (name body_50, ''Undamaged'') \<and>
   records_named (name body_50) ''Undamaged''
     [body_50, potion_arena, whip_locked, whip_normal, potion_nmz] = [] \<and>
   sort_key name [body_50, potion_arena, whip_locked, whip_normal, potion_nmz] =
     [whip_locked, whip_normal] @ body_50 # [potion_arena, potion_nmz] \<and>
   classify_item header
     (sort_key name [body_50, potion_arena, whip_locked, whip_normal, potion_nmz]) body_50 = header \<and>
   resolve_loop header (sort_key name [body_50, potion_arena, whip_locked, whip_normal, potion_nmz])
     ([whip_locked, whip_normal] @ body_50 # [potion_arena, potion_nmz]) =
   resolve_loop header (sort_key name [body_50, potion_arena, whip_locked, whip_normal, potion_nmz])
     ([whip_locked, whip_normal] @ [potion_arena, potion_nmz]) \<and>
   entries_of_item body_50 (aliases [body_50, potion_arena, whip_locked, whip_normal, potion_nmz]) = []"
proof -
  have h1: "designated_base body_50 = Some (name body_50, ''Undamaged'')"
    by (simp add: example_items designated_base_def regex_defs)
  have h2: "records_named (name body_50) ''Undamaged''
              [body_50, potion_arena, whip_locked, whip_normal, potion_nmz] = []"
    by (simp add: example_items records_named_def)
  have order: "sort_key name [body_50, potion_arena, whip_locked, whip_normal, potion_nmz] =
     [whip_locked, whip_normal] @ body_50 # [potion_arena, potion_nmz]"
    by (simp add: example_items)
  from absent_base_emits_nothing [OF h1 h2, of header "[whip_locked, whip_normal]"
      "[potion_arena, potion_nmz]"] h1 h2 order
  show ?thesis
    by blast
qed

subsection \<open>A record that matches no rule\<close>

text \<open>
  C8, as amended. A catalog record for which the four tests of the chain fail (the tests
  as the code makes them: the patterns on the name and on the version also accept one
  final newline) adds nothing to the text at its step; and when every catalog record
  that carries its identifier fails the four tests too, the output has no alias entry
  whose variant identifier is the identifier of that record.
\<close>

theorem unmatched_record_no_entry:
  assumes "x \<in> set items" and "matches_no_rule x"
    and "\<forall>y \<in> set items. item_id y = item_id x \<longrightarrow> matches_no_rule y"
  shows "classify_item data all_items x = data \<and>
         entries_of_id (item_id x) (aliases items) = []"
proof -
  from assms(2) have "designated_base x = None"
    by (simp add: designated_base_None)
  then have step: "classify_item data all_items x = data"
    by (simp add: classify_item_designated)
  have "item_id (fst e) \<noteq> item_id x" if "e \<in> set (aliases items)" for e
  proof
    assume same: "item_id (fst e) = item_id x"
    obtain v b where e: "e = (v, b)"
      by (cases e)
    with that have "v \<in> set items" and "designated_base v \<noteq> None"
      by (auto simp: aliases_set)
    with same e assms(3) show False
      by (auto simp: designated_base_None)
  qed
  then have "entries_of_id (item_id x) (aliases items) = []"
    by (auto simp: entries_of_id_def filter_empty_conv)
  with step show ?thesis
    by simp
qed

theorem unmatched_record_no_entry_witness:
  "helm_base \<in> set [helm_base, whip_locked, whip_normal] \<and> matches_no_rule helm_base \<and>
   count_id (item_id helm_base) [helm_base, whip_locked, whip_normal] = 1 \<and>
   classify_item header [helm_base, whip_locked, whip_normal] helm_base = header \<and>
   entries_of_id (item_id helm_base) (aliases [helm_base, whip_locked, whip_normal]) = []"
proof -
  have h1: "helm_base \<in> set [helm_base, whip_locked, whip_normal]"
    by simp
  have h2: "matches_no_rule helm_base"
    by (simp add: example_items matches_no_rule_def regex_defs)
  have h3: "\<forall>y \<in> set [helm_base, whip_locked, whip_normal].
              item_id y = item_id helm_base \<longrightarrow> matches_no_rule y"
    using h2 by (simp add: example_items)
  have one: "count_id (item_id helm_base) [helm_base, whip_locked, whip_normal] = 1"
    by (simp add: count_id_def example_items)
  from unmatched_record_no_entry [OF h1 h2 h3, of header "[helm_base, whip_locked, whip_normal]"]
    h1 h2 one
  show ?thesis
    by blast
qed

text \<open>
  The claim as stated fails: the plain bronze sword matches no rule, the Locked whip
  carries the same identifier, and the output has an entry whose variant identifier is
  that identifier.
\<close>

theorem unmatched_record_shared_id_counterexample:
  "matches_no_rule bronze_plain \<and> item_id whip_locked = item_id bronze_plain \<and>
   entries_of_id (item_id bronze_plain) (aliases [bronze_plain, whip_locked, whip_normal]) =
     [(whip_locked, whip_normal)] \<and>
   resolve [bronze_plain, whip_locked, whip_normal] =
     header @ ''\<newline>    21371: 4151, // Abyssal whip#Locked\<newline>}''"
  by (simp add: eval_defs matches_no_rule_def entries_of_id_def)

subsection \<open>Several records with one name and one version\<close>

lemma find_first_match:
  "filter P ps = [] \<Longrightarrow> P b \<Longrightarrow> find P (ps @ b # ss) = Some b"
  by (simp add: find_eq_filter)

lemma find_Some_split:
  "find P xs = Some b \<Longrightarrow> \<exists>ps ss. xs = ps @ b # ss \<and> filter P ps = []"
proof (induction xs)
  case Nil
  then show ?case by simp
next
  case (Cons a xs)
  show ?case
  proof (cases "P a")
    case True
    with Cons.prems have "a = b" by simp
    then have "a # xs = [] @ b # xs \<and> filter P [] = []" by simp
    then show ?thesis by blast
  next
    case False
    with Cons obtain ps ss where "xs = ps @ b # ss" and "filter P ps = []"
      by auto
    with False have "a # xs = (a # ps) @ b # ss \<and> filter P (a # ps) = []"
      by simp
    then show ?thesis by blast
  qed
qed

text \<open>
  C9. Let \<open>b\<close> be the earliest record in fetch order with name \<open>bn\<close> and version \<open>bv\<close>
  (no record before it has both). Then the search in the list sorted by name selects
  \<open>b\<close>, \<open>b\<close> is the first record with that name and version in the sorted list too,
  \<open>handle_base_variant\<close> appends the entry that names \<open>b\<close>, and every alias entry of the
  output whose variant asks for that name and version has \<open>b\<close> as its base.
\<close>

theorem first_match_is_the_base:
  assumes "items = ps @ b # ss" and "name b = bn" and "version b = bv"
    and "records_named bn bv ps = []"
  shows "base_lookup (sort_key name items) bn bv = Some b \<and>
         (\<exists>ps' ss'. sort_key name items = ps' @ b # ss' \<and> records_named bn bv ps' = []) \<and>
         handle_base_variant data (sort_key name items) v bn bv = data @ entry_text v b \<and>
         list_all (\<lambda>e. snd e = b) (entries_for_base bn bv (aliases items))"
proof -
  have fetch: "base_lookup items bn bv = Some b"
    unfolding base_lookup_def assms(1)
    using assms(2-4) by (intro find_first_match) (simp_all add: records_named_def)
  then have sorted: "base_lookup (sort_key name items) bn bv = Some b"
    by (simp add: base_lookup_sort)
  then have split: "\<exists>ps' ss'. sort_key name items = ps' @ b # ss' \<and> records_named bn bv ps' = []"
    unfolding base_lookup_def records_named_def by (rule find_Some_split)
  from sorted have emit:
    "handle_base_variant data (sort_key name items) v bn bv = data @ entry_text v b"
    by (simp add: handle_base_variant_lookup)
  have "snd e = b" if "e \<in> set (entries_for_base bn bv (aliases items))" for e
  proof -
    obtain v' b' where e: "e = (v', b')"
      by (cases e)
    with that have "(v', b') \<in> set (aliases items)" and "designated_base v' = Some (bn, bv)"
      by (simp_all add: entries_for_base_def)
    then have "base_lookup items bn bv = Some b'"
      by (auto simp: aliases_set)
    with fetch e show ?thesis
      by simp
  qed
  then have "list_all (\<lambda>e. snd e = b) (entries_for_base bn bv (aliases items))"
    by (simp add: list_all_iff)
  with sorted split emit show ?thesis
    by blast
qed

theorem first_match_is_the_base_witness:
  "[bronze_plain, whip_second, whip_locked, whip_normal] =
     [bronze_plain] @ whip_second # [whip_locked, whip_normal] \<and>
   name whip_second = ''Abyssal whip'' \<and> version whip_second = ''Normal'' \<and>
   name whip_normal = ''Abyssal whip'' \<and> version whip_normal = ''Normal'' \<and>
   records_named ''Abyssal whip'' ''Normal'' [bronze_plain] = [] \<and>
   sort_key name [bronze_plain, whip_second, whip_locked, whip_normal] =
     [whip_second, whip_locked, whip_normal, bronze_plain] \<and>
   base_lookup (sort_key name [bronze_plain, whip_second, whip_locked, whip_normal])
     ''Abyssal whip'' ''Normal'' = Some whip_second \<and>
   handle_base_variant header (sort_key name [bronze_plain, whip_second, whip_locked, whip_normal])
     whip_locked ''Abyssal whip'' ''Normal'' = header @ entry_text whip_locked whip_second \<and>
   list_all (\<lambda>e. snd e = whip_second)
     (entries_for_base ''Abyssal whip'' ''Normal''
        (aliases [bronze_plain, whip_second, whip_locked, whip_normal])) \<and>
   resolve [bronze_plain, whip_second, whip_locked, whip_normal] =
     header @ ''\<newline>    21371: 26482, // Abyssal whip#Locked\<newline>}''"
proof -
  have h1: "[bronze_plain, whip_second, whip_locked, whip_normal] =
     [bronze_plain] @ whip_second # [whip_locked, whip_normal]"
    by simp
  have h2: "name whip_second = ''Abyssal whip''" and h3: "version whip_second = ''Normal''"
    and h4: "records_named ''Abyssal whip'' ''Normal'' [bronze_plain] = []"
    by (simp_all add: example_items records_named_def)
  have other: "name whip_normal = ''Abyssal whip''" "version whip_normal = ''Normal''"
    by (simp_all add: example_items)
  have order: "sort_key name [bronze_plain, whip_second, whip_locked, whip_normal] =
     [whip_second, whip_locked, whip_normal, bronze_plain]"
    by (simp add: example_items)
  have out: "resolve [bronze_plain, whip_second, whip_locked, whip_normal] =
     header @ ''\<newline>    21371: 26482, // Abyssal whip#Locked\<newline>}''"
    by (simp add: eval_defs)
  from first_match_is_the_base [OF h1 h2 h3 h4, of header whip_locked] h1 h2 h3 h4 other order out
  show ?thesis
    by blast
qed

subsection \<open>A record without an identifier\<close>

text \<open>
  C10. A fetched record whose \<open>Item ID\<close> printout is the empty array is not skipped:
  its item is appended to the list with the identifier \<open>None\<close>. When a base is found
  for it, the text appended has the key \<open>None\<close>; when it is itself the base found for a
  variant, the text appended has the value \<open>None\<close>: \<open>handle_base_variant\<close> formats both
  identifiers as they are.
\<close>

theorem absent_identifier_is_emitted:
  assumes "Item_ID po = []" and "base_lookup all_items bn bv = Some b"
  shows "build_items ((k, Some po) # rest) = make_item k po # build_items rest \<and>
         item_id (make_item k po) = None \<and>
         handle_base_variant data all_items (make_item k po) bn bv =
           data @ ''\<newline>    None: '' @ py_str (item_id b) @ '', // '' @
             name (make_item k po) @ ''#'' @ version (make_item k po) \<and>
         handle_base_variant data (make_item k po # others) v
             (name (make_item k po)) (version (make_item k po)) =
           data @ ''\<newline>    '' @ py_str (item_id v) @ '': None, // '' @ name v @ ''#'' @ version v"
proof -
  from assms(1) have none: "item_id (make_item k po) = None"
    by (simp add: make_item_def getPrintoutValue_def)
  have variant: "handle_base_variant data all_items (make_item k po) bn bv =
           data @ ''\<newline>    None: '' @ py_str (item_id b) @ '', // '' @
             name (make_item k po) @ ''#'' @ version (make_item k po)"
    using assms(2) none
    by (simp add: handle_base_variant_lookup entry_text_def py_str_def)
  have base: "handle_base_variant data (make_item k po # others) v
             (name (make_item k po)) (version (make_item k po)) =
           data @ ''\<newline>    '' @ py_str (item_id v) @ '': None, // '' @ name v @ ''#'' @ version v"
    using none by (simp add: handle_base_variant_def entry_text_def py_str_def)
  from none variant base show ?thesis
    by simp
qed

theorem absent_identifier_is_emitted_witness:
  "Item_ID \<lparr>Item_ID = [], Version_anchor = [''Locked'']\<rparr> = [] \<and>
   base_lookup [whip_normal] ''Abyssal whip'' ''Normal'' = Some whip_normal \<and>
   build_items [(''Abyssal whip#Locked'', Some \<lparr>Item_ID = [], Version_anchor = [''Locked'']\<rparr>)] =
     [\<lparr>name = ''Abyssal whip'', item_id = None, version = ''Locked''\<rparr>] \<and>
   handle_base_variant header [whip_normal]
     (make_item ''Abyssal whip#Locked'' \<lparr>Item_ID = [], Version_anchor = [''Locked'']\<rparr>)
     ''Abyssal whip'' ''Normal'' =
     header @ ''\<newline>    None: 4151, // Abyssal whip#Locked'' \<and>
   resolve (build_items
     [(''Abyssal whip#Locked'', Some \<lparr>Item_ID = [], Version_anchor = [''Locked'']\<rparr>),
      (''Abyssal whip#Normal'', Some \<lparr>Item_ID = [], Version_anchor = [''Normal'']\<rparr>)]) =
     header @ ''\<newline>    None: None, // Abyssal whip#Locked\<newline>}''"
proof -
  have h1: "Item_ID \<lparr>Item_ID = [], Version_anchor = [''Locked'']\<rparr> = []"
    by simp
  have h2: "base_lookup [whip_normal] ''Abyssal whip'' ''Normal'' = Some whip_normal"
    by (simp add: base_lookup_def example_items)
  have item: "make_item ''Abyssal whip#Locked'' \<lparr>Item_ID = [], Version_anchor = [''Locked'']\<rparr> =
      \<lparr>name = ''Abyssal whip'', item_id = None, version = ''Locked''\<rparr>"
    by (simp add: make_item_def rsplit_head_def getPrintoutValue_def or_empty_def)
  have ident: "py_str (item_id whip_normal) = ''4151''"
    by (simp add: example_items str_defs)
  have out: "resolve (build_items
     [(''Abyssal whip#Locked'', Some \<lparr>Item_ID = [], Version_anchor = [''Locked'']\<rparr>),
      (''Abyssal whip#Normal'', Some \<lparr>Item_ID = [], Version_anchor = [''Normal'']\<rparr>)]) =
     header @ ''\<newline>    None: None, // Abyssal whip#Locked\<newline>}''"
    by (simp add: eval_defs make_item_def rsplit_head_def getPrintoutValue_def)
  from absent_identifier_is_emitted [OF h1 h2, of "''Abyssal whip#Locked''" "[]" header]
  have "build_items [(''Abyssal whip#Locked'', Some \<lparr>Item_ID = [], Version_anchor = [''Locked'']\<rparr>)] =
     [\<lparr>name = ''Abyssal whip'', item_id = None, version = ''Locked''\<rparr>]"
    and "handle_base_variant header [whip_normal]
     (make_item ''Abyssal whip#Locked'' \<lparr>Item_ID = [], Version_anchor = [''Locked'']\<rparr>)
     ''Abyssal whip'' ''Normal'' =
     header @ ''\<newline>    None: 4151, // Abyssal whip#Locked''"
    by (simp_all add: item ident)
  with h1 h2 out show ?thesis
    by blast
qed

end
